theory Spec2Isabelle
  imports Complex_Main "HOL-Library.Monad_Syntax" "HOL-Library.Word"
begin

section \<open>Fractal generation engine (src/utils/fractalAlgorithms.ts)\<close>

text \<open>
  The five generators of \<^verbatim>\<open>fractalAlgorithms.ts\<close> are embedded as HOL functions.

  \<^item> A JavaScript \<^verbatim>\<open>number\<close> that holds a coordinate, an angle, a length, a zoom
    or an offset is a mathematical \<^typ>\<open>real\<close>: rounding, NaN and the infinities of
    IEEE doubles are not part of this model.
  \<^item> A \<^verbatim>\<open>number\<close> that holds a recursion depth or an iteration cap is an
    \<^typ>\<open>int\<close>, so that a negative depth is an input of the model.
  \<^item> The recursive generators of Koch and Sierpinski only stop at
    \<^verbatim>\<open>iterations === 0\<close>; a negative depth recurses for ever. They are therefore
    partial functions in the option monad: \<open>None\<close> is "does not return". The tree
    generator is defined the same way and proved to return for every input.
  \<^item> The properties proved below are about the number and the position of the elements
    produced and about the values 0, 3 and 255. The one that reads a computed length,
    the number of segments of the tree, assumes the exact length to be at least 1 one
    level below the last branch drawn, so that rounding cannot change the outcome of a
    floor test.
\<close>

subsection \<open>Data model\<close>

text \<open>\<^verbatim>\<open>interface Point { x: number; y: number }\<close>. The fields are called \<open>px\<close>
  and \<open>py\<close>.\<close>

record Point =
  px :: real
  py :: real

text \<open>\<^verbatim>\<open>Math.atan2(y, x)\<close> on reals: the angle of the vector \<open>(x, y)\<close> in
  \<open>(-\<pi>, \<pi>]\<close>, and \<open>0\<close> at the origin.\<close>

definition atan2 :: "real \<Rightarrow> real \<Rightarrow> real" where
  "atan2 b a =
     (if 0 < a then arctan (b / a)
      else if a < 0 \<and> 0 \<le> b then arctan (b / a) + pi
      else if a < 0 \<and> b < 0 then arctan (b / a) - pi
      else if 0 < b then pi / 2
      else if b < 0 then - (pi / 2)
      else 0)"

subsection \<open>Koch curve\<close>

text \<open>\<^verbatim>\<open>KochCurve.generate\<close> (lines 24-60). \<^verbatim>\<open>seg.slice(0, -1)\<close> is
  \<^const>\<open>butlast\<close>.\<close>

partial_function (option) koch_generate :: "Point \<Rightarrow> Point \<Rightarrow> int \<Rightarrow> Point list option" where
  "koch_generate p1 p2 iterations =
     (if iterations = 0 then Some [p1, p2]
      else
        let dx = px p2 - px p1;
            dy = py p2 - py p1;
            p3 = \<lparr>px = px p1 + dx / 3, py = py p1 + dy / 3\<rparr>;
            p5 = \<lparr>px = px p1 + (2 * dx) / 3, py = py p1 + (2 * dy) / 3\<rparr>;
            angle = pi / 3;
            len = sqrt ((dx / 3)\<^sup>2 + (dy / 3)\<^sup>2);
            baseAngle = atan2 dy dx;
            p4 = \<lparr>px = px p3 + len * cos (baseAngle - angle),
                  py = py p3 + len * sin (baseAngle - angle)\<rparr>
        in do {
          seg1 \<leftarrow> koch_generate p1 p3 (iterations - 1);
          seg2 \<leftarrow> koch_generate p3 p4 (iterations - 1);
          seg3 \<leftarrow> koch_generate p4 p5 (iterations - 1);
          seg4 \<leftarrow> koch_generate p5 p2 (iterations - 1);
          Some (butlast seg1 @ butlast seg2 @ butlast seg3 @ seg4)
        })"

text \<open>\<^verbatim>\<open>KochCurve.generateSnowflake\<close> (lines 62-84): the loop over \<open>i = 0, 1, 2\<close>
  pushes one side per edge; it is a recursion on the list of indices still to visit.\<close>

definition snowflake_angles :: "real list" where
  "snowflake_angles = [0, 2 * pi / 3, 4 * pi / 3]"

fun snowflake_sides :: "Point \<Rightarrow> real \<Rightarrow> int \<Rightarrow> nat list \<Rightarrow> Point list list \<Rightarrow> Point list list option" where
  "snowflake_sides center radius iterations [] sides = Some sides"
| "snowflake_sides center radius iterations (i # is) sides =
     (let angle1 = snowflake_angles ! i;
          angle2 = snowflake_angles ! ((i + 1) mod 3);
          p1 = \<lparr>px = px center + radius * cos angle1, py = py center + radius * sin angle1\<rparr>;
          p2 = \<lparr>px = px center + radius * cos angle2, py = py center + radius * sin angle2\<rparr>
      in do {
        side \<leftarrow> koch_generate p1 p2 iterations;
        snowflake_sides center radius iterations is (sides @ [side])
      })"

definition generateSnowflake :: "Point \<Rightarrow> real \<Rightarrow> int \<Rightarrow> Point list list option" where
  "generateSnowflake center radius iterations = snowflake_sides center radius iterations [0, 1, 2] []"

subsection \<open>Sierpinski triangle\<close>

text \<open>\<^verbatim>\<open>SierpinskiTriangle.generate\<close> (lines 91-107). A triangle is the array
  \<^verbatim>\<open>[p1, p2, p3]\<close>, a list of three points.\<close>

partial_function (option) sierpinski_generate ::
    "Point \<Rightarrow> Point \<Rightarrow> Point \<Rightarrow> int \<Rightarrow> Point list list option" where
  "sierpinski_generate p1 p2 p3 iterations =
     (if iterations = 0 then Some [[p1, p2, p3]]
      else
        let mid1 = \<lparr>px = (px p1 + px p2) / 2, py = (py p1 + py p2) / 2\<rparr>;
            mid2 = \<lparr>px = (px p2 + px p3) / 2, py = (py p2 + py p3) / 2\<rparr>;
            mid3 = \<lparr>px = (px p3 + px p1) / 2, py = (py p3 + py p1) / 2\<rparr>
        in do {
          triangles1 \<leftarrow> sierpinski_generate p1 mid1 mid3 (iterations - 1);
          triangles2 \<leftarrow> sierpinski_generate mid1 p2 mid2 (iterations - 1);
          triangles3 \<leftarrow> sierpinski_generate mid3 mid2 p3 (iterations - 1);
          Some (triangles1 @ triangles2 @ triangles3)
        })"

subsection \<open>Escape-time loops\<close>

text \<open>The anonymous type \<^verbatim>\<open>{ real: number; imag: number }\<close>.\<close>

record CNum =
  real_part :: real
  imag_part :: real

text \<open>The \<^verbatim>\<open>while\<close> loop of \<^verbatim>\<open>MandelbrotSet.isInSet\<close> (lines 118-123), with the
  loop variables \<open>z\<close> and \<open>iterations\<close> as arguments. The counter rises by one towards
  \<open>maxIterations\<close>, so the loop always ends.\<close>

function mandelbrot_loop :: "CNum \<Rightarrow> int \<Rightarrow> CNum \<Rightarrow> int \<Rightarrow> int" where
  "mandelbrot_loop c maxIterations z iterations =
     (if iterations < maxIterations
         \<and> real_part z * real_part z + imag_part z * imag_part z < 4
      then
        let zReal = real_part z * real_part z - imag_part z * imag_part z + real_part c;
            zImag = 2 * real_part z * imag_part z + imag_part c
        in mandelbrot_loop c maxIterations \<lparr>real_part = zReal, imag_part = zImag\<rparr> (iterations + 1)
      else iterations)"
  by pat_completeness auto
termination
  by (relation "measure (\<lambda>(c, maxIterations, z, iterations). nat (maxIterations - iterations))") auto

declare mandelbrot_loop.simps [simp del]

text \<open>\<^verbatim>\<open>MandelbrotSet.isInSet\<close> (lines 114-126).\<close>

definition mandelbrot_isInSet :: "CNum \<Rightarrow> int \<Rightarrow> int" where
  "mandelbrot_isInSet c maxIterations =
     mandelbrot_loop c maxIterations \<lparr>real_part = 0, imag_part = 0\<rparr> 0"

text \<open>The \<^verbatim>\<open>while\<close> loop of \<^verbatim>\<open>JuliaSet.isInSet\<close> (lines 255-260).\<close>

function julia_loop :: "CNum \<Rightarrow> int \<Rightarrow> CNum \<Rightarrow> int \<Rightarrow> int" where
  "julia_loop c maxIterations z iterations =
     (if iterations < maxIterations
         \<and> real_part z * real_part z + imag_part z * imag_part z < 4
      then
        let zReal = real_part z * real_part z - imag_part z * imag_part z + real_part c;
            zImag = 2 * real_part z * imag_part z + imag_part c
        in julia_loop c maxIterations \<lparr>real_part = zReal, imag_part = zImag\<rparr> (iterations + 1)
      else iterations)"
  by pat_completeness auto
termination
  by (relation "measure (\<lambda>(c, maxIterations, z, iterations). nat (maxIterations - iterations))") auto

declare julia_loop.simps [simp del]

text \<open>\<^verbatim>\<open>JuliaSet.isInSet\<close> (lines 248-263).\<close>

definition julia_isInSet :: "CNum \<Rightarrow> CNum \<Rightarrow> int \<Rightarrow> int" where
  "julia_isInSet z c maxIterations = julia_loop c maxIterations z 0"

subsection \<open>Colour mapping\<close>

text \<open>The remainder \<^verbatim>\<open>a % b\<close> of JavaScript on reals: the quotient is truncated
  towards zero, so the result has the sign of \<open>a\<close>. It is used with \<open>b = 2\<close> and
  \<open>b = 360\<close> only.\<close>

definition js_rem :: "real \<Rightarrow> real \<Rightarrow> real" where
  "js_rem a b =
     a - b * of_int (if 0 \<le> a / b then \<lfloor>a / b\<rfloor> else \<lceil>a / b\<rceil>)"

text \<open>\<^verbatim>\<open>Math.round\<close>: the nearest integer, a tie going up.\<close>

definition math_round :: "real \<Rightarrow> int" where
  "math_round v = \<lfloor>v + 1 / 2\<rfloor>"

record RGB =
  rgb_r :: int
  rgb_g :: int
  rgb_b :: int

text \<open>\<^verbatim>\<open>MandelbrotSet.hslToRgb\<close> (lines 170-200). The three \<^verbatim>\<open>let\<close> variables
  \<open>r\<close>, \<open>g\<close>, \<open>b\<close> start at 0 and are set by the first sector that matches.\<close>

definition hslToRgb :: "real \<Rightarrow> real \<Rightarrow> real \<Rightarrow> RGB" where
  "hslToRgb h0 s0 l0 =
     (let h = h0 / 360;
          s = s0 / 100;
          l = l0 / 100;
          c = (1 - \<bar>2 * l - 1\<bar>) * s;
          x = c * (1 - \<bar>js_rem (h * 6) 2 - 1\<bar>);
          m = l - c / 2;
          (r, g, b) =
            (if 0 \<le> h \<and> h < 1 / 6 then (c, x, 0)
             else if 1 / 6 \<le> h \<and> h < 1 / 3 then (x, c, 0)
             else if 1 / 3 \<le> h \<and> h < 1 / 2 then (0, c, x)
             else if 1 / 2 \<le> h \<and> h < 2 / 3 then (0, x, c)
             else if 2 / 3 \<le> h \<and> h < 5 / 6 then (x, 0, c)
             else if 5 / 6 \<le> h \<and> h < 1 then (c, 0, x)
             else (0, 0, 0))
      in \<lparr>rgb_r = math_round ((r + m) * 255),
          rgb_g = math_round ((g + m) * 255),
          rgb_b = math_round ((b + m) * 255)\<rparr>)"

subsection \<open>Rasters\<close>

text \<open>\<^verbatim>\<open>ImageData\<close> is the browser's pixel buffer: \<^verbatim>\<open>new ImageData(w, h)\<close> takes two
  unsigned integers, throws \<^verbatim>\<open>IndexSizeError\<close> when one of them is zero, and otherwise
  holds a \<^verbatim>\<open>Uint8ClampedArray\<close> of \<open>w * h * 4\<close> zero bytes.\<close>

datatype error = IndexSizeError

record ImageData =
  img_width :: nat
  img_height :: nat
  img_data :: "8 word list"

definition new_ImageData :: "nat \<Rightarrow> nat \<Rightarrow> error + ImageData" where
  "new_ImageData w h =
     (if w = 0 \<or> h = 0 then Inl IndexSizeError
      else Inr \<lparr>img_width = w, img_height = h, img_data = replicate (w * h * 4) 0\<rparr>)"

text \<open>A store of an integer into a \<^verbatim>\<open>Uint8ClampedArray\<close> clamps it to \<open>0..255\<close>. A
  store at an index outside the array is ignored, as \<^const>\<open>list_update\<close> does.\<close>

definition to_uint8_clamped :: "int \<Rightarrow> 8 word" where
  "to_uint8_clamped v = (if v < 0 then 0 else if 255 < v then 255 else word_of_int v)"

text \<open>The body of the two nested loops of \<^verbatim>\<open>MandelbrotSet.generate\<close> (lines 141-163),
  for the pixel \<open>(x, y)\<close>, as a function of the buffer \<open>data\<close> it updates.\<close>

definition mandelbrot_coord :: "nat \<Rightarrow> nat \<Rightarrow> real \<Rightarrow> real \<Rightarrow> real \<Rightarrow> nat \<Rightarrow> nat \<Rightarrow> CNum" where
  "mandelbrot_coord width height zoom offsetX offsetY x y =
     \<lparr>real_part = (real x - real width / 2) / (zoom * real width / 4) + offsetX,
      imag_part = (real y - real height / 2) / (zoom * real height / 4) + offsetY\<rparr>"

definition mandelbrot_pixel ::
    "nat \<Rightarrow> nat \<Rightarrow> real \<Rightarrow> real \<Rightarrow> real \<Rightarrow> int \<Rightarrow> nat \<Rightarrow> nat \<Rightarrow> 8 word list \<Rightarrow> 8 word list" where
  "mandelbrot_pixel width height zoom offsetX offsetY maxIterations x y data =
     (let iterations = mandelbrot_isInSet (mandelbrot_coord width height zoom offsetX offsetY x y) maxIterations;
          index = (y * width + x) * 4
      in if iterations = maxIterations
         then data[index := 0, index + 1 := 0, index + 2 := 0, index + 3 := 255]
         else
           let ratio = real_of_int iterations / real_of_int maxIterations;
               hue = js_rem (ratio * 360) 360;
               color = hslToRgb hue 70 50
           in data[index := to_uint8_clamped (rgb_r color),
                   index + 1 := to_uint8_clamped (rgb_g color),
                   index + 2 := to_uint8_clamped (rgb_b color),
                   index + 3 := 255])"

text \<open>\<^verbatim>\<open>MandelbrotSet.generate\<close> (lines 128-168): \<open>x\<close> runs over \<open>0..<width\<close> and,
  inside, \<open>y\<close> over \<open>0..<height\<close>.\<close>

definition mandelbrot_generate ::
    "nat \<Rightarrow> nat \<Rightarrow> real \<Rightarrow> real \<Rightarrow> real \<Rightarrow> int \<Rightarrow> error + ImageData" where
  "mandelbrot_generate width height zoom offsetX offsetY maxIterations =
     (case new_ImageData width height of
        Inl e \<Rightarrow> Inl e
      | Inr imageData \<Rightarrow>
          Inr (imageData\<lparr>img_data :=
            fold (\<lambda>x. fold (mandelbrot_pixel width height zoom offsetX offsetY maxIterations x)
                        [0..<height])
              [0..<width] (img_data imageData)\<rparr>))"

text \<open>The loop body of \<^verbatim>\<open>JuliaSet.generate\<close> (lines 221-241): the pixel is the
  starting point \<open>z\<close>, and \<open>c\<close> is the constant.\<close>

definition julia_pixel ::
    "nat \<Rightarrow> nat \<Rightarrow> real \<Rightarrow> real \<Rightarrow> real \<Rightarrow> CNum \<Rightarrow> int \<Rightarrow> nat \<Rightarrow> nat \<Rightarrow> 8 word list \<Rightarrow> 8 word list" where
  "julia_pixel width height zoom offsetX offsetY c maxIterations x y data =
     (let re = (real x - real width / 2) / (zoom * real width / 4) + offsetX;
          im = (real y - real height / 2) / (zoom * real height / 4) + offsetY;
          iterations = julia_isInSet \<lparr>real_part = re, imag_part = im\<rparr> c maxIterations;
          index = (y * width + x) * 4
      in if iterations = maxIterations
         then data[index := 0, index + 1 := 0, index + 2 := 0, index + 3 := 255]
         else
           let ratio = real_of_int iterations / real_of_int maxIterations;
               hue = js_rem (ratio * 360 + 180) 360;
               color = hslToRgb hue 80 60
           in data[index := to_uint8_clamped (rgb_r color),
                   index + 1 := to_uint8_clamped (rgb_g color),
                   index + 2 := to_uint8_clamped (rgb_b color),
                   index + 3 := 255])"

text \<open>\<^verbatim>\<open>JuliaSet.generate\<close> (lines 207-246).\<close>

definition julia_generate ::
    "nat \<Rightarrow> nat \<Rightarrow> real \<Rightarrow> real \<Rightarrow> real \<Rightarrow> CNum \<Rightarrow> int \<Rightarrow> error + ImageData" where
  "julia_generate width height zoom offsetX offsetY c maxIterations =
     (case new_ImageData width height of
        Inl e \<Rightarrow> Inl e
      | Inr imageData \<Rightarrow>
          Inr (imageData\<lparr>img_data :=
            fold (\<lambda>x. fold (julia_pixel width height zoom offsetX offsetY c maxIterations x)
                        [0..<height])
              [0..<width] (img_data imageData)\<rparr>))"

subsection \<open>Fractal tree\<close>

text \<open>\<^verbatim>\<open>FractalTree.generate\<close> (lines 270-294). A branch is the array
  \<^verbatim>\<open>[startPoint, endPoint]\<close>. The function is defined in the option monad, and it is
  proved below to return for every input. The product \<open>len * 0.7\<close> is exact here, while
  the source rounds it to a double at every level; a statement about the floor
  \<open>len < 1\<close> at a deeper level therefore keeps the exact length away from 1.\<close>

partial_function (option) tree_generate ::
    "Point \<Rightarrow> real \<Rightarrow> real \<Rightarrow> int \<Rightarrow> real \<Rightarrow> Point list list option" where
  "tree_generate startPoint angle len iterations branchAngle =
     (if iterations = 0 \<or> len < 1 then Some []
      else
        let endPoint = \<lparr>px = px startPoint + len * cos angle,
                        py = py startPoint + len * sin angle\<rparr>;
            branches = [[startPoint, endPoint]];
            newLength = len * 0.7
        in do {
          leftBranches \<leftarrow> tree_generate endPoint (angle - branchAngle) newLength (iterations - 1) branchAngle;
          rightBranches \<leftarrow> tree_generate endPoint (angle + branchAngle) newLength (iterations - 1) branchAngle;
          Some (branches @ leftBranches @ rightBranches)
        })"

text \<open>The call with four arguments takes the default \<^verbatim>\<open>branchAngle = Math.PI / 6\<close>.\<close>

definition tree_generate_default :: "Point \<Rightarrow> real \<Rightarrow> real \<Rightarrow> int \<Rightarrow> Point list list option" where
  "tree_generate_default startPoint angle len iterations =
     tree_generate startPoint angle len iterations (pi / 6)"

subsection \<open>Koch curve: length and endpoints\<close>

lemma koch_generate_0: "koch_generate p1 p2 0 = Some [p1, p2]"
  by (simp add: koch_generate.simps)

lemma koch_generate_shape:
  "\<exists>ps. koch_generate p1 p2 (int d) = Some ps \<and> length ps = 4 ^ d + 1
        \<and> hd ps = p1 \<and> last ps = p2"
proof (induction d arbitrary: p1 p2)
  case 0
  show ?case by (simp add: koch_generate_0)
next
  case (Suc d)
  define dx where "dx = px p2 - px p1"
  define dy where "dy = py p2 - py p1"
  define p3 where "p3 = \<lparr>px = px p1 + dx / 3, py = py p1 + dy / 3\<rparr>"
  define p5 where "p5 = \<lparr>px = px p1 + (2 * dx) / 3, py = py p1 + (2 * dy) / 3\<rparr>"
  define len where "len = sqrt ((dx / 3)\<^sup>2 + (dy / 3)\<^sup>2)"
  define p4 where "p4 = \<lparr>px = px p3 + len * cos (atan2 dy dx - pi / 3),
                         py = py p3 + len * sin (atan2 dy dx - pi / 3)\<rparr>"
  obtain s1 where s1: "koch_generate p1 p3 (int d) = Some s1" "length s1 = 4 ^ d + 1" "hd s1 = p1"
    using Suc.IH [of p1 p3] by blast
  obtain s2 where s2: "koch_generate p3 p4 (int d) = Some s2" "length s2 = 4 ^ d + 1"
    using Suc.IH [of p3 p4] by blast
  obtain s3 where s3: "koch_generate p4 p5 (int d) = Some s3" "length s3 = 4 ^ d + 1"
    using Suc.IH [of p4 p5] by blast
  obtain s4 where s4: "koch_generate p5 p2 (int d) = Some s4" "length s4 = 4 ^ d + 1" "last s4 = p2"
    using Suc.IH [of p5 p2] by blast
  have eq: "koch_generate p1 p2 (int (Suc d)) = Some (butlast s1 @ butlast s2 @ butlast s3 @ s4)"
    using s1(1) s2(1) s3(1) s4(1)
    by (subst koch_generate.simps)
       (simp add: Let_def dx_def dy_def p3_def p5_def len_def p4_def)
  have ne1: "butlast s1 \<noteq> []" and ne4: "s4 \<noteq> []"
    using s1(2) s4(2) by (auto simp flip: length_greater_0_conv)
  have "hd (butlast s1) = hd s1"
    using ne1 by (cases s1) (auto split: if_splits)
  then have h: "hd (butlast s1 @ butlast s2 @ butlast s3 @ s4) = p1"
    using ne1 s1(3) by simp
  have l: "last (butlast s1 @ butlast s2 @ butlast s3 @ s4) = p2"
    using ne4 s4(3) by simp
  have n: "length (butlast s1 @ butlast s2 @ butlast s3 @ s4) = 4 ^ Suc d + 1"
    using s1(2) s2(2) s3(2) s4(2) by simp
  show ?case using eq h l n by simp
qed

lemma koch_generate_returns_nonneg:
  assumes "koch_generate p1 p2 d = Some ps"
  shows "0 \<le> d"
proof (rule koch_generate.raw_induct [where P = "\<lambda>p1 p2 d ps. 0 \<le> d", OF _ assms], goal_cases)
  case (1 koch p1 p2 iterations ps)
  show ?case
  proof (cases "iterations = 0")
    case True
    then show ?thesis by simp
  next
    case False
    with 1(2) obtain q1 q2 s1 where "koch q1 q2 (iterations - 1) = Some s1"
      by (auto simp: Let_def split: bind_splits)
    from 1(1) [OF this] show ?thesis by simp
  qed
qed

text \<open>
  Claim C2, as amended. \<^verbatim>\<open>KochCurve.generate(p1, p2, 0)\<close> returns exactly
  \<open>[p1, p2]\<close>, and for every pair of points and every depth \<open>d \<ge> 0\<close> the call
  returns a sequence of exactly \<open>4^d + 1\<close> points: each level replaces a segment by
  four, so the number of segments is \<open>4^d\<close>.
\<close>

theorem koch_generate_length:
  "koch_generate p1 p2 0 = Some [p1, p2]
   \<and> (0 \<le> d \<longrightarrow> (\<exists>ps. koch_generate p1 p2 d = Some ps \<and> length ps = 4 ^ nat d + 1))"
  using koch_generate_shape [of p1 p2 "nat d"] by (auto simp: koch_generate_0)

theorem koch_generate_length_witness:
  "koch_generate \<lparr>px = 0, py = 0\<rparr> \<lparr>px = 3, py = 0\<rparr> 0 = Some [\<lparr>px = 0, py = 0\<rparr>, \<lparr>px = 3, py = 0\<rparr>]
   \<and> (0::int) \<le> 2
   \<and> (\<exists>ps. koch_generate \<lparr>px = 0, py = 0\<rparr> \<lparr>px = 3, py = 0\<rparr> 2 = Some ps \<and> length ps = 17)"
  using koch_generate_length [of "\<lparr>px = 0, py = 0\<rparr>" "\<lparr>px = 3, py = 0\<rparr>" 2] by simp

text \<open>
  Claim C2 as first stated, with the count \<open>3^d + 1\<close>, fails already at depth 1: the segment from \<open>(0, 0)\<close> to
  \<open>(3, 0)\<close> yields the five points \<open>p1, p3, p4, p5, p2\<close>, not four.
\<close>

theorem koch_generate_length_counterexample:
  "map_option length (koch_generate \<lparr>px = 0, py = 0\<rparr> \<lparr>px = 3, py = 0\<rparr> 1) = Some 5
   \<and> (5::nat) \<noteq> 3 ^ 1 + 1"
  by (simp add: koch_generate.simps Let_def)

text \<open>
  Claim C10. For every pair of points \<open>p1\<close>, \<open>p2\<close> and every depth \<open>d \<ge> 0\<close>,
  \<^verbatim>\<open>KochCurve.generate(p1, p2, d)\<close> returns a non-empty sequence whose first element
  is \<open>p1\<close> and whose last element is \<open>p2\<close>.
\<close>

theorem koch_generate_endpoints:
  "0 \<le> d \<Longrightarrow> \<exists>ps. koch_generate p1 p2 d = Some ps \<and> ps \<noteq> [] \<and> hd ps = p1 \<and> last ps = p2"
  using koch_generate_shape [of p1 p2 "nat d"] by (auto simp flip: length_greater_0_conv)

theorem koch_generate_endpoints_witness:
  "(0::int) \<le> 3
   \<and> (\<exists>ps. koch_generate \<lparr>px = 0, py = 0\<rparr> \<lparr>px = 3, py = 0\<rparr> 3 = Some ps \<and> ps \<noteq> []
        \<and> hd ps = \<lparr>px = 0, py = 0\<rparr> \<and> last ps = \<lparr>px = 3, py = 0\<rparr>)"
  using koch_generate_endpoints [of 3 "\<lparr>px = 0, py = 0\<rparr>" "\<lparr>px = 3, py = 0\<rparr>"] by simp

text \<open>Hence the three sides of the snowflake meet at the vertices of the triangle.\<close>

lemma generateSnowflake_sides_meet:
  assumes "0 \<le> d"
  shows "\<exists>s0 s1 s2. generateSnowflake center radius d = Some [s0, s1, s2]
      \<and> last s0 = hd s1 \<and> last s1 = hd s2 \<and> last s2 = hd s0"
proof -
  define v where "v = (\<lambda>t. \<lparr>px = px center + radius * cos t, py = py center + radius * sin t\<rparr>)"
  have d: "d = int (nat d)" using assms by simp
  obtain s0 where s0: "koch_generate (v 0) (v (2 * pi / 3)) d = Some s0"
      "hd s0 = v 0" "last s0 = v (2 * pi / 3)"
    using koch_generate_shape [of "v 0" "v (2 * pi / 3)" "nat d"] d by auto
  obtain s1 where s1: "koch_generate (v (2 * pi / 3)) (v (4 * pi / 3)) d = Some s1"
      "hd s1 = v (2 * pi / 3)" "last s1 = v (4 * pi / 3)"
    using koch_generate_shape [of "v (2 * pi / 3)" "v (4 * pi / 3)" "nat d"] d by auto
  obtain s2 where s2: "koch_generate (v (4 * pi / 3)) (v 0) d = Some s2"
      "hd s2 = v (4 * pi / 3)" "last s2 = v 0"
    using koch_generate_shape [of "v (4 * pi / 3)" "v 0" "nat d"] d by auto
  have "generateSnowflake center radius d = Some [s0, s1, s2]"
    using s0(1) s1(1) s2(1)
    by (simp add: generateSnowflake_def snowflake_angles_def Let_def v_def)
  then show ?thesis using s0 s1 s2 by simp
qed

subsection \<open>Sierpinski triangle: number of triangles\<close>

lemma sierpinski_generate_0: "sierpinski_generate p1 p2 p3 0 = Some [[p1, p2, p3]]"
  by (simp add: sierpinski_generate.simps)

lemma sierpinski_generate_shape:
  "\<exists>ts. sierpinski_generate p1 p2 p3 (int d) = Some ts \<and> length ts = 3 ^ d
        \<and> list_all (\<lambda>t. length t = 3) ts"
proof (induction d arbitrary: p1 p2 p3)
  case 0
  show ?case by (simp add: sierpinski_generate_0)
next
  case (Suc d)
  define mid1 where "mid1 = \<lparr>px = (px p1 + px p2) / 2, py = (py p1 + py p2) / 2\<rparr>"
  define mid2 where "mid2 = \<lparr>px = (px p2 + px p3) / 2, py = (py p2 + py p3) / 2\<rparr>"
  define mid3 where "mid3 = \<lparr>px = (px p3 + px p1) / 2, py = (py p3 + py p1) / 2\<rparr>"
  obtain t1 where t1: "sierpinski_generate p1 mid1 mid3 (int d) = Some t1" "length t1 = 3 ^ d"
      "list_all (\<lambda>t. length t = 3) t1"
    using Suc.IH [of p1 mid1 mid3] by blast
  obtain t2 where t2: "sierpinski_generate mid1 p2 mid2 (int d) = Some t2" "length t2 = 3 ^ d"
      "list_all (\<lambda>t. length t = 3) t2"
    using Suc.IH [of mid1 p2 mid2] by blast
  obtain t3 where t3: "sierpinski_generate mid3 mid2 p3 (int d) = Some t3" "length t3 = 3 ^ d"
      "list_all (\<lambda>t. length t = 3) t3"
    using Suc.IH [of mid3 mid2 p3] by blast
  have "sierpinski_generate p1 p2 p3 (int (Suc d)) = Some (t1 @ t2 @ t3)"
    using t1(1) t2(1) t3(1)
    by (subst sierpinski_generate.simps) (simp add: Let_def mid1_def mid2_def mid3_def)
  then show ?case using t1 t2 t3 by simp
qed

lemma sierpinski_generate_returns_nonneg:
  assumes "sierpinski_generate p1 p2 p3 d = Some ts"
  shows "0 \<le> d"
proof (rule sierpinski_generate.raw_induct [where P = "\<lambda>p1 p2 p3 d ts. 0 \<le> d", OF _ assms], goal_cases)
  case (1 sierpinski p1 p2 p3 iterations ts)
  show ?case
  proof (cases "iterations = 0")
    case True
    then show ?thesis by simp
  next
    case False
    with 1(2) obtain q1 q2 q3 t1 where "sierpinski q1 q2 q3 (iterations - 1) = Some t1"
      by (auto simp: Let_def split: bind_splits)
    from 1(1) [OF this] show ?thesis by simp
  qed
qed

text \<open>
  Claim C3. \<^verbatim>\<open>SierpinskiTriangle.generate(p1, p2, p3, 0)\<close> returns the single triple
  \<open>[p1, p2, p3]\<close>, and for every triangle and every depth \<open>d \<ge> 0\<close> the call returns
  exactly \<open>3^d\<close> elements, each of them a list of three points.
\<close>

theorem sierpinski_generate_count:
  "sierpinski_generate p1 p2 p3 0 = Some [[p1, p2, p3]]
   \<and> (0 \<le> d \<longrightarrow> (\<exists>ts. sierpinski_generate p1 p2 p3 d = Some ts \<and> length ts = 3 ^ nat d
          \<and> list_all (\<lambda>t. length t = 3) ts))"
  using sierpinski_generate_shape [of p1 p2 p3 "nat d"] by (auto simp: sierpinski_generate_0)

theorem sierpinski_generate_count_witness:
  "sierpinski_generate \<lparr>px = 0, py = 0\<rparr> \<lparr>px = 4, py = 0\<rparr> \<lparr>px = 2, py = 3\<rparr> 0
     = Some [[\<lparr>px = 0, py = 0\<rparr>, \<lparr>px = 4, py = 0\<rparr>, \<lparr>px = 2, py = 3\<rparr>]]
   \<and> (0::int) \<le> 2
   \<and> (\<exists>ts. sierpinski_generate \<lparr>px = 0, py = 0\<rparr> \<lparr>px = 4, py = 0\<rparr> \<lparr>px = 2, py = 3\<rparr> 2 = Some ts
        \<and> length ts = 9 \<and> list_all (\<lambda>t. length t = 3) ts)"
  using sierpinski_generate_count [of "\<lparr>px = 0, py = 0\<rparr>" "\<lparr>px = 4, py = 0\<rparr>" "\<lparr>px = 2, py = 3\<rparr>" 2]
  by simp

subsection \<open>Escape-time loops: range and agreement\<close>

lemma mandelbrot_loop_bounds:
  "iterations \<le> maxIterations \<Longrightarrow>
   iterations \<le> mandelbrot_loop c maxIterations z iterations
   \<and> mandelbrot_loop c maxIterations z iterations \<le> maxIterations"
proof (induction c maxIterations z iterations rule: mandelbrot_loop.induct)
  case (1 c maxIterations z iterations)
  show ?case
  proof (cases "iterations < maxIterations
         \<and> real_part z * real_part z + imag_part z * imag_part z < 4")
    case True
    then show ?thesis
      using "1.IH" [OF True refl refl] by (subst (1 2) mandelbrot_loop.simps) (simp add: Let_def)
  next
    case False
    then show ?thesis using "1.prems" by (subst (1 2) mandelbrot_loop.simps) auto
  qed
qed

lemma mandelbrot_loop_origin:
  "iterations \<le> maxIterations \<Longrightarrow>
   mandelbrot_loop \<lparr>real_part = 0, imag_part = 0\<rparr> maxIterations
     \<lparr>real_part = 0, imag_part = 0\<rparr> iterations = maxIterations"
proof (induction "nat (maxIterations - iterations)" arbitrary: iterations)
  case 0
  then show ?case by (subst mandelbrot_loop.simps) simp
next
  case (Suc n)
  then have "iterations < maxIterations" by simp
  moreover have "mandelbrot_loop \<lparr>real_part = 0, imag_part = 0\<rparr> maxIterations
     \<lparr>real_part = 0, imag_part = 0\<rparr> (iterations + 1) = maxIterations"
    using Suc by (intro Suc.hyps(1)) auto
  ultimately show ?case by (subst mandelbrot_loop.simps) simp
qed

lemma mandelbrot_isInSet_origin:
  "0 \<le> maxIterations \<Longrightarrow> mandelbrot_isInSet \<lparr>real_part = 0, imag_part = 0\<rparr> maxIterations = maxIterations"
  by (simp add: mandelbrot_isInSet_def mandelbrot_loop_origin)

lemma mandelbrot_isInSet_3_3:
  "1 \<le> maxIterations \<Longrightarrow> mandelbrot_isInSet \<lparr>real_part = 3, imag_part = 3\<rparr> maxIterations = 1"
  unfolding mandelbrot_isInSet_def
  by (subst mandelbrot_loop.simps, simp add: Let_def)
     (subst mandelbrot_loop.simps, simp)

lemma julia_loop_eq_mandelbrot_loop:
  "julia_loop c maxIterations z iterations = mandelbrot_loop c maxIterations z iterations"
proof (induction c maxIterations z iterations rule: mandelbrot_loop.induct)
  case (1 c maxIterations z iterations)
  show ?case
  proof (cases "iterations < maxIterations
         \<and> real_part z * real_part z + imag_part z * imag_part z < 4")
    case True
    then show ?thesis
      using "1.IH" [OF True refl refl]
      by (subst julia_loop.simps, subst mandelbrot_loop.simps) (simp add: Let_def)
  next
    case False
    then show ?thesis by (subst julia_loop.simps, subst mandelbrot_loop.simps) auto
  qed
qed

text \<open>
  Claim C4. For every iteration cap \<open>N \<ge> 0\<close>, \<^verbatim>\<open>MandelbrotSet.isInSet\<close> returns
  \<open>N\<close> at \<open>c = (0, 0)\<close>; at \<open>c = (3, 3)\<close> with \<open>N \<ge> 1\<close> it returns 0 or 1
  (it returns 1: the test of the loop sees \<open>z = 0\<close> first); and for every \<open>c\<close> the count
  lies between 0 and \<open>N\<close>.
\<close>

theorem mandelbrot_isInSet_range:
  assumes "0 \<le> N"
  shows "mandelbrot_isInSet \<lparr>real_part = 0, imag_part = 0\<rparr> N = N
     \<and> (1 \<le> N \<longrightarrow> mandelbrot_isInSet \<lparr>real_part = 3, imag_part = 3\<rparr> N \<in> {0, 1})
     \<and> 0 \<le> mandelbrot_isInSet c N \<and> mandelbrot_isInSet c N \<le> N"
  using assms mandelbrot_loop_bounds [of 0 N c "\<lparr>real_part = 0, imag_part = 0\<rparr>"]
  by (simp add: mandelbrot_isInSet_origin mandelbrot_isInSet_3_3)
     (simp add: mandelbrot_isInSet_def)

theorem mandelbrot_isInSet_range_witness:
  "(0::int) \<le> 5
   \<and> mandelbrot_isInSet \<lparr>real_part = 0, imag_part = 0\<rparr> 5 = 5
   \<and> (1::int) \<le> 5 \<and> mandelbrot_isInSet \<lparr>real_part = 3, imag_part = 3\<rparr> 5 \<in> {0, 1}
   \<and> 0 \<le> mandelbrot_isInSet \<lparr>real_part = - 1, imag_part = 0\<rparr> 5
   \<and> mandelbrot_isInSet \<lparr>real_part = - 1, imag_part = 0\<rparr> 5 \<le> 5"
  using mandelbrot_isInSet_range [of 5 "\<lparr>real_part = - 1, imag_part = 0\<rparr>"] by simp

text \<open>
  Claim C9. For every constant \<open>c\<close> and every cap, the Julia loop started from
  \<open>z = (0, 0)\<close> returns the count that the Mandelbrot function returns at \<open>c\<close>:
  \<^verbatim>\<open>JuliaSet.isInSet({real: 0, imag: 0}, c, m) == MandelbrotSet.isInSet(c, m)\<close>.
\<close>

theorem julia_isInSet_origin_eq_mandelbrot:
  "julia_isInSet \<lparr>real_part = 0, imag_part = 0\<rparr> c maxIterations = mandelbrot_isInSet c maxIterations"
  by (simp add: julia_isInSet_def mandelbrot_isInSet_def julia_loop_eq_mandelbrot_loop)

subsection \<open>Rasters: the buffer after the two loops\<close>

text \<open>The nested loops visit the pixels in the order of \<^const>\<open>List.product\<close>. Every
  pixel body stores four bytes at its own index, the fourth being 255; two pixels with
  \<open>x < width\<close> have different indices.\<close>

lemma fold_nested_product:
  "fold (\<lambda>x. fold (g x) ys) xs d = fold (\<lambda>(x, y). g x y) (List.product xs ys) d"
  by (induction xs arbitrary: d) (simp_all add: fold_map comp_def)

lemma pixel_index_bound:
  fixes x y w h :: nat
  assumes "x < w" "y < h"
  shows "(y * w + x) * 4 + 3 < w * h * 4"
proof -
  have "y * w + x < Suc y * w" using assms(1) by simp
  also have "\<dots> \<le> h * w" using assms(2) by (intro mult_le_mono1) simp
  finally show ?thesis by (simp add: mult.commute)
qed

lemma pixel_index_inj:
  fixes x y w x' y' :: nat
  assumes "x < w" "x' < w" "y * w + x = y' * w + x'"
  shows "x = x' \<and> y = y'"
proof -
  have "(y * w + x) mod w = x" "(y' * w + x') mod w = x'"
    using assms(1,2) by simp_all
  moreover have "(y * w + x) div w = y" "(y' * w + x') div w = y'"
    using assms(1,2) by simp_all
  ultimately show ?thesis using assms(3) by metis
qed

lemma put4_nth_other:
  "k' \<noteq> k \<Longrightarrow> j < 4 \<Longrightarrow>
   d[k * 4 := a, k * 4 + 1 := b, k * 4 + 2 := c, k * 4 + 3 := e] ! (k' * 4 + j) = d ! (k' * 4 + j)"
  by simp

lemma put4_nth_same:
  fixes d :: "'a list"
  assumes "k * 4 + 3 < length d"
  shows "d[k * 4 := a, k * 4 + 1 := b, k * 4 + 2 := c, k * 4 + 3 := e] ! (k * 4) = a"
    and "d[k * 4 := a, k * 4 + 1 := b, k * 4 + 2 := c, k * 4 + 3 := e] ! (k * 4 + 1) = b"
    and "d[k * 4 := a, k * 4 + 1 := b, k * 4 + 2 := c, k * 4 + 3 := e] ! (k * 4 + 2) = c"
    and "d[k * 4 := a, k * 4 + 1 := b, k * 4 + 2 := c, k * 4 + 3 := e] ! (k * 4 + 3) = e"
  using assms by (simp_all add: nth_list_update)

lemma fold_pixels_alpha:
  fixes body :: "nat \<Rightarrow> nat \<Rightarrow> 8 word list \<Rightarrow> 8 word list"
  assumes shape: "\<And>x y d. \<exists>a b c. body x y d =
      d[(y * w + x) * 4 := a, (y * w + x) * 4 + 1 := b, (y * w + x) * 4 + 2 := c,
        (y * w + x) * 4 + 3 := 255]"
  assumes range: "\<forall>(x, y) \<in> set ps. (y * w + x) * 4 + 3 < length d0"
  shows "length (fold (\<lambda>(x, y). body x y) ps d0) = length d0
       \<and> (\<forall>(x, y) \<in> set ps. fold (\<lambda>(x, y). body x y) ps d0 ! ((y * w + x) * 4 + 3) = 255)"
  using range
proof (induction ps rule: rev_induct)
  case Nil
  show ?case by simp
next
  case (snoc p ps)
  obtain x y where p: "p = (x, y)" by (cases p)
  define d1 where "d1 = fold (\<lambda>(x, y). body x y) ps d0"
  define k where "k = y * w + x"
  have IH: "length d1 = length d0" "\<forall>(x, y) \<in> set ps. d1 ! ((y * w + x) * 4 + 3) = 255"
    using snoc by (auto simp: d1_def)
  obtain a b c where step: "body x y d1 = d1[k * 4 := a, k * 4 + 1 := b, k * 4 + 2 := c, k * 4 + 3 := 255]"
    using shape [of x y d1] by (auto simp: k_def)
  have fold_eq: "fold (\<lambda>(x, y). body x y) (ps @ [p]) d0 = body x y d1"
    by (simp add: p d1_def)
  have inr: "k * 4 + 3 < length d1"
    using snoc.prems IH(1) by (simp add: p k_def)
  have "body x y d1 ! ((y' * w + x') * 4 + 3) = 255" if "(x', y') \<in> set (ps @ [p])" for x' y'
  proof (cases "y' * w + x' = k")
    case True
    then show ?thesis using put4_nth_same(4) [OF inr] step by simp
  next
    case False
    then have "(x', y') \<in> set ps" using that by (auto simp: p k_def)
    then have "d1 ! ((y' * w + x') * 4 + 3) = 255" using IH(2) by auto
    then show ?thesis using put4_nth_other [OF False, of 3 d1] step by simp
  qed
  then show ?case using IH(1) step unfolding fold_eq by auto
qed

lemma fold_pixels_target:
  fixes body :: "nat \<Rightarrow> nat \<Rightarrow> 8 word list \<Rightarrow> 8 word list"
  assumes shape: "\<And>x y d. \<exists>a b c. body x y d =
      d[(y * w + x) * 4 := a, (y * w + x) * 4 + 1 := b, (y * w + x) * 4 + 2 := c,
        (y * w + x) * 4 + 3 := 255]"
  assumes target: "\<And>d. body x0 y0 d =
      d[(y0 * w + x0) * 4 := v0, (y0 * w + x0) * 4 + 1 := v1, (y0 * w + x0) * 4 + 2 := v2,
        (y0 * w + x0) * 4 + 3 := v3]"
  assumes x0: "x0 < w"
  assumes range: "\<forall>(x, y) \<in> set ps. x < w \<and> (y * w + x) * 4 + 3 < length d0"
  assumes mem: "(x0, y0) \<in> set ps"
  shows "length (fold (\<lambda>(x, y). body x y) ps d0) = length d0
       \<and> fold (\<lambda>(x, y). body x y) ps d0 ! ((y0 * w + x0) * 4) = v0
       \<and> fold (\<lambda>(x, y). body x y) ps d0 ! ((y0 * w + x0) * 4 + 1) = v1
       \<and> fold (\<lambda>(x, y). body x y) ps d0 ! ((y0 * w + x0) * 4 + 2) = v2
       \<and> fold (\<lambda>(x, y). body x y) ps d0 ! ((y0 * w + x0) * 4 + 3) = v3"
  using range mem
proof (induction ps rule: rev_induct)
  case Nil
  then show ?case by simp
next
  case (snoc p ps)
  obtain x y where p: "p = (x, y)" by (cases p)
  define d1 where "d1 = fold (\<lambda>(x, y). body x y) ps d0"
  define k where "k = y * w + x"
  define k0 where "k0 = y0 * w + x0"
  have "\<forall>(x, y) \<in> set ps. (y * w + x) * 4 + 3 < length d0"
    using snoc.prems(1) by auto
  from fold_pixels_alpha [of body w ps d0, OF shape this]
  have len: "length d1 = length d0" by (simp add: d1_def)
  have fold_eq: "fold (\<lambda>(x, y). body x y) (ps @ [p]) d0 = body x y d1"
    by (simp add: p d1_def)
  have xw: "x < w" and inr: "k * 4 + 3 < length d1"
    using snoc.prems(1) len by (simp_all add: p k_def)
  show ?case
  proof (cases "p = (x0, y0)")
    case True
    then have xy: "x = x0" "y = y0" using p by simp_all
    have "body x y d1 = d1[k0 * 4 := v0, k0 * 4 + 1 := v1, k0 * 4 + 2 := v2, k0 * 4 + 3 := v3]"
      using target [of d1] by (simp add: xy k0_def)
    moreover have "k0 * 4 + 3 < length d1" using inr by (simp add: k_def k0_def xy)
    ultimately show ?thesis
      unfolding fold_eq using put4_nth_same [of k0 d1 v0 v1 v2 v3] len
      by (simp add: k0_def)
  next
    case False
    then have mem': "(x0, y0) \<in> set ps" using snoc.prems(2) by auto
    have IH: "d1 ! (k0 * 4) = v0" "d1 ! (k0 * 4 + 1) = v1" "d1 ! (k0 * 4 + 2) = v2"
        "d1 ! (k0 * 4 + 3) = v3"
      using snoc.IH [OF _ mem'] snoc.prems(1) by (auto simp: d1_def k0_def)
    have ne: "k0 \<noteq> k"
      using pixel_index_inj [OF x0 xw, of y0 y] False p by (auto simp: k_def k0_def)
    obtain a b c where step: "body x y d1 = d1[k * 4 := a, k * 4 + 1 := b, k * 4 + 2 := c, k * 4 + 3 := 255]"
      using shape [of x y d1] by (auto simp: k_def)
    have "body x y d1 ! (k0 * 4 + j) = d1 ! (k0 * 4 + j)" if "j < 4" for j
      using put4_nth_other [OF ne that, of d1] step by simp
    from this [of 0] this [of 1] this [of 2] this [of 3] show ?thesis
      unfolding fold_eq using IH len step by (simp add: k0_def)
  qed
qed

lemma mandelbrot_pixel_shape:
  "\<exists>a b c. mandelbrot_pixel width height zoom offsetX offsetY maxIterations x y d =
      d[(y * width + x) * 4 := a, (y * width + x) * 4 + 1 := b, (y * width + x) * 4 + 2 := c,
        (y * width + x) * 4 + 3 := 255]"
  unfolding mandelbrot_pixel_def Let_def by (rule if_split [THEN iffD2]) blast

lemma julia_pixel_shape:
  "\<exists>a b c. julia_pixel width height zoom offsetX offsetY cc maxIterations x y d =
      d[(y * width + x) * 4 := a, (y * width + x) * 4 + 1 := b, (y * width + x) * 4 + 2 := c,
        (y * width + x) * 4 + 3 := 255]"
  unfolding julia_pixel_def Let_def by (rule if_split [THEN iffD2]) blast

lemma product_upt_range:
  "\<forall>(x, y) \<in> set (List.product [0..<w] [0..<h]). x < w \<and> (y * w + x) * 4 + 3 < length (replicate (w * h * 4) (0 :: 8 word))"
  using pixel_index_bound by auto

lemma julia_generate_raster:
  assumes "0 < width" "0 < height"
  shows "\<exists>img. julia_generate width height zoom offsetX offsetY c maxIterations = Inr img
      \<and> img_width img = width \<and> img_height img = height
      \<and> length (img_data img) = width * height * 4
      \<and> (\<forall>i < length (img_data img). i mod 4 = 3 \<longrightarrow> img_data img ! i = 255)"
proof -
  define body where "body = julia_pixel width height zoom offsetX offsetY c maxIterations"
  define ps where "ps = List.product [0..<width] [0..<height]"
  define d0 where "d0 = replicate (width * height * 4) (0 :: 8 word)"
  define R where "R = fold (\<lambda>(x, y). body x y) ps d0"
  have shape: "\<exists>a b cc. body x y d =
      d[(y * width + x) * 4 := a, (y * width + x) * 4 + 1 := b, (y * width + x) * 4 + 2 := cc,
        (y * width + x) * 4 + 3 := 255]" for x y d
    unfolding body_def by (rule julia_pixel_shape)
  have range: "\<forall>(x, y) \<in> set ps. (y * width + x) * 4 + 3 < length d0"
    using product_upt_range [of width height] by (auto simp: ps_def d0_def)
  from fold_pixels_alpha [of body width ps d0, OF shape range]
  have len: "length R = length d0"
    and alpha: "\<forall>(x, y) \<in> set ps. R ! ((y * width + x) * 4 + 3) = 255"
    by (simp_all add: R_def)
  have gen: "julia_generate width height zoom offsetX offsetY c maxIterations
      = Inr \<lparr>img_width = width, img_height = height, img_data = R\<rparr>"
    using assms
    by (simp add: julia_generate_def new_ImageData_def fold_nested_product R_def body_def ps_def d0_def)
  have "R ! i = 255" if "i < length R" "i mod 4 = 3" for i
  proof -
    define k where "k = i div 4"
    have i: "i = k * 4 + 3" using that(2) by (simp add: k_def) presburger
    have "k < height * width" using that(1) len i by (simp add: d0_def mult.commute)
    then have "k div width < height" by (simp add: less_mult_imp_div_less)
    moreover have "k mod width < width" using assms(1) by simp
    ultimately have "(k mod width, k div width) \<in> set ps" by (simp add: ps_def)
    with alpha have "R ! ((k div width * width + k mod width) * 4 + 3) = 255"
      by (blast dest: bspec)
    moreover have "k div width * width + k mod width = k" by simp
    ultimately show ?thesis using i by simp
  qed
  then show ?thesis using gen len by (simp add: d0_def)
qed

lemma mandelbrot_coord_center:
  assumes "even W" "0 < W"
  shows "mandelbrot_coord W W 1 0 0 (W div 2) (W div 2) = \<lparr>real_part = 0, imag_part = 0\<rparr>"
proof -
  have "real (W div 2) = real W / 2" using assms(1) by (simp add: real_of_nat_div)
  then show ?thesis by (simp add: mandelbrot_coord_def)
qed

lemma mandelbrot_pixel_center:
  assumes "even W" "0 < W" "0 \<le> maxIterations"
  shows "mandelbrot_pixel W W 1 0 0 maxIterations (W div 2) (W div 2) d =
      d[(W div 2 * W + W div 2) * 4 := 0, (W div 2 * W + W div 2) * 4 + 1 := 0,
        (W div 2 * W + W div 2) * 4 + 2 := 0, (W div 2 * W + W div 2) * 4 + 3 := 255]"
  using assms
  by (simp add: mandelbrot_pixel_def mandelbrot_coord_center mandelbrot_isInSet_origin Let_def)

lemma mandelbrot_generate_center:
  assumes "even W" "0 < W" "0 \<le> maxIterations"
  shows "\<exists>img. mandelbrot_generate W W 1 0 0 maxIterations = Inr img
      \<and> length (img_data img) = W * W * 4
      \<and> img_data img ! ((W div 2 * W + W div 2) * 4) = 0
      \<and> img_data img ! ((W div 2 * W + W div 2) * 4 + 1) = 0
      \<and> img_data img ! ((W div 2 * W + W div 2) * 4 + 2) = 0
      \<and> img_data img ! ((W div 2 * W + W div 2) * 4 + 3) = 255"
proof -
  define body where "body = mandelbrot_pixel W W 1 0 0 maxIterations"
  define ps where "ps = List.product [0..<W] [0..<W]"
  define d0 where "d0 = replicate (W * W * 4) (0 :: 8 word)"
  define R where "R = fold (\<lambda>(x, y). body x y) ps d0"
  have shape: "\<exists>a b cc. body x y d =
      d[(y * W + x) * 4 := a, (y * W + x) * 4 + 1 := b, (y * W + x) * 4 + 2 := cc,
        (y * W + x) * 4 + 3 := 255]" for x y d
    unfolding body_def by (rule mandelbrot_pixel_shape)
  have target: "body (W div 2) (W div 2) d =
      d[(W div 2 * W + W div 2) * 4 := 0, (W div 2 * W + W div 2) * 4 + 1 := 0,
        (W div 2 * W + W div 2) * 4 + 2 := 0, (W div 2 * W + W div 2) * 4 + 3 := 255]" for d
    unfolding body_def using assms by (rule mandelbrot_pixel_center)
  have half: "W div 2 < W" using assms(2) by simp
  have range: "\<forall>(x, y) \<in> set ps. x < W \<and> (y * W + x) * 4 + 3 < length d0"
    using product_upt_range [of W W] by (simp add: ps_def d0_def)
  have mem: "(W div 2, W div 2) \<in> set ps" using half by (simp add: ps_def)
  have gen: "mandelbrot_generate W W 1 0 0 maxIterations
      = Inr \<lparr>img_width = W, img_height = W, img_data = R\<rparr>"
    using assms(2)
    by (simp add: mandelbrot_generate_def new_ImageData_def fold_nested_product R_def body_def ps_def d0_def)
  from fold_pixels_target [of body W "W div 2" "W div 2" 0 0 0 255 ps d0, OF shape target half range mem]
  show ?thesis using gen by (simp add: R_def d0_def)
qed

text \<open>
  Claim C5. For every even \<open>W > 0\<close> and every \<open>maxIterations \<ge> 50\<close>,
  \<^verbatim>\<open>MandelbrotSet.generate(W, W, 1, 0, 0, maxIterations)\<close> maps the centre pixel
  \<open>(W/2, W/2)\<close> to the complex coordinate \<open>(0, 0)\<close>, and the returned buffer holds
  the bytes \<open>0, 0, 0, 255\<close> at the index \<open>(y * W + x) * 4\<close> of that pixel.
\<close>

theorem mandelbrot_generate_center_black:
  assumes "even W" "0 < W" "50 \<le> maxIterations"
  shows "mandelbrot_coord W W 1 0 0 (W div 2) (W div 2) = \<lparr>real_part = 0, imag_part = 0\<rparr>
      \<and> (\<exists>img. mandelbrot_generate W W 1 0 0 maxIterations = Inr img
          \<and> (W div 2 * W + W div 2) * 4 + 3 < length (img_data img)
          \<and> img_data img ! ((W div 2 * W + W div 2) * 4) = 0
          \<and> img_data img ! ((W div 2 * W + W div 2) * 4 + 1) = 0
          \<and> img_data img ! ((W div 2 * W + W div 2) * 4 + 2) = 0
          \<and> img_data img ! ((W div 2 * W + W div 2) * 4 + 3) = 255)"
proof -
  have m: "0 \<le> maxIterations" using assms(3) by simp
  have "(W div 2 * W + W div 2) * 4 + 3 < W * W * 4"
    using assms(2) by (intro pixel_index_bound) simp_all
  then show ?thesis
    using mandelbrot_coord_center [OF assms(1,2)] mandelbrot_generate_center [OF assms(1,2) m]
    by auto
qed

theorem mandelbrot_generate_center_black_witness:
  "even (4::nat) \<and> (0::nat) < 4 \<and> (50::int) \<le> 50
   \<and> mandelbrot_coord 4 4 1 0 0 2 2 = \<lparr>real_part = 0, imag_part = 0\<rparr>
   \<and> (\<exists>img. mandelbrot_generate 4 4 1 0 0 50 = Inr img
        \<and> 43 < length (img_data img)
        \<and> img_data img ! 40 = 0 \<and> img_data img ! 41 = 0 \<and> img_data img ! 42 = 0
        \<and> img_data img ! 43 = 255)"
  using mandelbrot_generate_center_black [of 4 50] by simp

text \<open>
  Claim C6. For every positive width and height, every \<open>zoom > 0\<close>, all offsets, every
  constant \<open>c\<close> and every \<open>maxIterations \<ge> 0\<close>, \<^verbatim>\<open>JuliaSet.generate\<close> returns
  an image whose buffer has exactly \<open>width * height * 4\<close> bytes, and every fourth byte
  of it (index \<open>i\<close> with \<open>i mod 4 = 3\<close>) is 255.
\<close>

theorem julia_generate_alpha:
  assumes "0 < width" "0 < height" "0 < zoom" "0 \<le> maxIterations"
  shows "\<exists>img. julia_generate width height zoom offsetX offsetY c maxIterations = Inr img
      \<and> img_width img = width \<and> img_height img = height
      \<and> length (img_data img) = width * height * 4
      \<and> (\<forall>i < length (img_data img). i mod 4 = 3 \<longrightarrow> img_data img ! i = 255)"
  using assms(1,2) by (rule julia_generate_raster)

theorem julia_generate_alpha_witness:
  "(0::nat) < 3 \<and> (0::nat) < 2 \<and> (0::real) < 1 \<and> (0::int) \<le> 100
   \<and> (\<exists>img. julia_generate 3 2 1 0 0 \<lparr>real_part = - 0.7, imag_part = 0.27015\<rparr> 100 = Inr img
        \<and> img_width img = 3 \<and> img_height img = 2
        \<and> length (img_data img) = 24
        \<and> img_data img ! 3 = 255 \<and> img_data img ! 7 = 255 \<and> img_data img ! 23 = 255)"
proof -
  obtain img where img: "julia_generate 3 2 1 0 0 \<lparr>real_part = - 0.7, imag_part = 0.27015\<rparr> 100 = Inr img"
      "img_width img = 3" "img_height img = 2" "length (img_data img) = 24"
      "\<forall>i < length (img_data img). i mod 4 = 3 \<longrightarrow> img_data img ! i = 255"
    using julia_generate_alpha [of 3 2 1 100 0 0 "\<lparr>real_part = - 0.7, imag_part = 0.27015\<rparr>"]
    by auto
  from img(5) [rule_format, of 3] img(5) [rule_format, of 7] img(5) [rule_format, of 23] img(4)
  have "img_data img ! 3 = 255" "img_data img ! 7 = 255" "img_data img ! 23 = 255"
    by simp_all
  with img(1-4) show ?thesis by simp
qed

subsection \<open>Fractal tree: termination and number of segments\<close>

lemma tree_generate_stop:
  "iterations = 0 \<or> len < 1 \<Longrightarrow> tree_generate s a len iterations b = Some []"
  by (subst tree_generate.simps) simp

lemma tree_generate_step:
  assumes "iterations \<noteq> 0" "1 \<le> len"
    and "tree_generate \<lparr>px = px s + len * cos a, py = py s + len * sin a\<rparr> (a - b) (len * 0.7) (iterations - 1) b = Some l"
    and "tree_generate \<lparr>px = px s + len * cos a, py = py s + len * sin a\<rparr> (a + b) (len * 0.7) (iterations - 1) b = Some r"
  shows "tree_generate s a len iterations b
         = Some ([[s, \<lparr>px = px s + len * cos a, py = py s + len * sin a\<rparr>]] @ l @ r)"
  using assms by (subst tree_generate.simps) (simp add: Let_def)

lemma tree_generate_returns_below:
  "len < (10 / 7) ^ n \<Longrightarrow> \<exists>segs. tree_generate s a len iterations b = Some segs"
proof (induction n arbitrary: s a len iterations)
  case 0
  then show ?case by (simp add: tree_generate_stop)
next
  case (Suc n)
  show ?case
  proof (cases "iterations = 0 \<or> len < 1")
    case True
    then show ?thesis by (simp add: tree_generate_stop)
  next
    case False
    define e where "e = \<lparr>px = px s + len * cos a, py = py s + len * sin a\<rparr>"
    have small: "len * 0.7 < (10 / 7) ^ n"
      using Suc.prems by (simp add: field_simps)
    obtain l where l: "tree_generate e (a - b) (len * 0.7) (iterations - 1) b = Some l"
      using Suc.IH [OF small] by blast
    obtain r where r: "tree_generate e (a + b) (len * 0.7) (iterations - 1) b = Some r"
      using Suc.IH [OF small] by blast
    show ?thesis
      using tree_generate_step [of iterations len s a b l r] False l r
      by (simp add: e_def)
  qed
qed

lemma tree_generate_returns: "\<exists>segs. tree_generate s a len iterations b = Some segs"
proof -
  obtain n where "len < (10 / 7) ^ n"
    using real_arch_pow [of "10 / 7" len] by auto
  then show ?thesis by (rule tree_generate_returns_below)
qed

lemma tree_generate_empty_iff:
  "tree_generate s a len iterations b = Some [] \<longleftrightarrow> iterations = 0 \<or> len < 1"
proof
  assume empty: "tree_generate s a len iterations b = Some []"
  show "iterations = 0 \<or> len < 1"
  proof (rule ccontr)
    assume "\<not> (iterations = 0 \<or> len < 1)"
    then have ne: "iterations \<noteq> 0" "1 \<le> len" by auto
    define e where "e = \<lparr>px = px s + len * cos a, py = py s + len * sin a\<rparr>"
    obtain l where l: "tree_generate e (a - b) (len * 0.7) (iterations - 1) b = Some l"
      using tree_generate_returns by blast
    obtain r where r: "tree_generate e (a + b) (len * 0.7) (iterations - 1) b = Some r"
      using tree_generate_returns by blast
    have "tree_generate s a len iterations b = Some ([[s, e]] @ l @ r)"
      using tree_generate_step [of iterations len s a b l r] ne l r by (simp add: e_def)
    with empty show False by simp
  qed
next
  assume "iterations = 0 \<or> len < 1"
  then show "tree_generate s a len iterations b = Some []" by (rule tree_generate_stop)
qed

lemma tree_generate_count:
  "(\<forall>k\<le>d. 1 \<le> len * 0.7 ^ k) \<Longrightarrow>
   \<exists>segs. tree_generate s a len (int d) b = Some segs \<and> length segs = 2 ^ d - 1"
proof (induction d arbitrary: s a len)
  case 0
  show ?case by (simp add: tree_generate_stop)
next
  case (Suc d)
  define e where "e = \<lparr>px = px s + len * cos a, py = py s + len * sin a\<rparr>"
  have len1: "1 \<le> len" using Suc.prems [rule_format, of 0] by simp
  have floor': "\<forall>k\<le>d. 1 \<le> (len * 0.7) * 0.7 ^ k"
  proof (intro allI impI)
    fix k assume "k \<le> d"
    then show "1 \<le> (len * 0.7) * 0.7 ^ k"
      using Suc.prems [rule_format, of "Suc k"] by (simp add: mult.assoc)
  qed
  obtain l where l: "tree_generate e (a - b) (len * 0.7) (int d) b = Some l" "length l = 2 ^ d - 1"
    using Suc.IH [OF floor'] by blast
  obtain r where r: "tree_generate e (a + b) (len * 0.7) (int d) b = Some r" "length r = 2 ^ d - 1"
    using Suc.IH [OF floor'] by blast
  have "tree_generate s a len (int (Suc d)) b = Some ([[s, e]] @ l @ r)"
    using tree_generate_step [of "int (Suc d)" len s a b l r] len1 l(1) r(1) by (simp add: e_def)
  moreover have "length ([[s, e]] @ l @ r) = 2 ^ Suc d - 1"
  proof -
    have "Suc ((n - 1) + (n - 1)) = 2 * n - 1" if "1 \<le> n" for n :: nat
      using that by arith
    from this [of "2 ^ d"] show ?thesis using l(2) r(2) by simp
  qed
  ultimately show ?case by blast
qed

text \<open>
  Claim C1, as amended. For every start point, angle, initial length and depth
  \<open>d \<ge> 0\<close> such that the length floor is never hit (\<open>length * 0.7^k \<ge> 1\<close> for
  every recursion level \<open>k\<close> reached, that is for every \<open>k \<le> d\<close>),
  \<^verbatim>\<open>FractalTree.generate\<close> returns exactly \<open>2^d - 1\<close> segments: the call at depth 0
  draws nothing. The hypothesis is the one of the claim; only the count changes. Since it
  holds at level \<open>d\<close> too, the exact length is at least \<open>10/7\<close> at every level
  \<open>k < d\<close> that draws a branch, a margin that the rounding of the products in doubles
  cannot use up.
\<close>

theorem tree_generate_segment_count:
  assumes "0 \<le> d" and "\<forall>k\<le>nat d. 1 \<le> len * 0.7 ^ k"
  shows "\<exists>segs. tree_generate s a len d b = Some segs \<and> length segs = 2 ^ nat d - 1"
  using tree_generate_count [of "nat d" len s a b] assms by simp

theorem tree_generate_segment_count_witness:
  "(0::int) \<le> 3 \<and> (1::real) \<le> 100 * 0.7 ^ 0 \<and> (1::real) \<le> 100 * 0.7 ^ 1 \<and> (1::real) \<le> 100 * 0.7 ^ 2
   \<and> (1::real) \<le> 100 * 0.7 ^ 3
   \<and> (\<exists>segs. tree_generate \<lparr>px = 0, py = 0\<rparr> (- (pi / 2)) 100 3 (pi / 6) = Some segs
        \<and> length segs = 7)"
proof -
  have "\<forall>k\<le>nat 3. (1::real) \<le> 100 * 0.7 ^ k"
    by (simp add: numeral_3_eq_3 le_Suc_eq power2_eq_square power3_eq_cube)
  from tree_generate_segment_count [of 3 100 "\<lparr>px = 0, py = 0\<rparr>" "- (pi / 2)" "pi / 6", OF _ this]
  show ?thesis by (simp add: power2_eq_square power3_eq_cube)
qed

text \<open>
  Claim C1 as first stated, with the count \<open>2^(d+1) - 1\<close>, fails at depth 2 and
  length 100, where the floor is not hit at any of the levels 0, 1, 2: the call returns three segments, not seven.
\<close>

theorem tree_generate_count_counterexample:
  "(1::real) \<le> 100 * 0.7 ^ 0 \<and> (1::real) \<le> 100 * 0.7 ^ 1 \<and> (1::real) \<le> 100 * 0.7 ^ 2
   \<and> map_option length (tree_generate \<lparr>px = 0, py = 0\<rparr> 0 100 2 (pi / 6)) = Some 3
   \<and> (3::nat) \<noteq> 2 ^ (2 + 1) - 1"
  by (simp add: tree_generate.simps Let_def power2_eq_square)

text \<open>
  Claim C7. \<^verbatim>\<open>FractalTree.generate\<close> returns for every start point, angle, length,
  depth (also a negative one) and branch angle, since the length shrinks by the factor
  0.7 until it is below 1; the result is the empty sequence exactly when
  \<open>depth = 0\<close> or \<open>length < 1\<close> at entry; in particular
  \<^verbatim>\<open>generate(start, angle, 0.5, 5)\<close> and \<^verbatim>\<open>generate(start, angle, 100, 0)\<close> are empty.
\<close>

theorem tree_generate_empty:
  "(\<exists>segs. tree_generate s a len d b = Some segs)
   \<and> (tree_generate s a len d b = Some [] \<longleftrightarrow> d = 0 \<or> len < 1)
   \<and> tree_generate_default s a 0.5 5 = Some []
   \<and> tree_generate_default s a 100 0 = Some []"
  by (simp add: tree_generate_returns tree_generate_empty_iff tree_generate_default_def)

end
